theory Spec2Isabelle
  imports Main "HOL-Library.Sublist" "HOL-Library.Multiset"
begin

section \<open>Data model (src/App.tsx, lines 19-26)\<close>

text \<open>
  A \<open>Date\<close> is modelled by its time value, the integer number of milliseconds since
  the epoch that \<open>getTime()\<close> returns. The object handed to \<open>addVisitor\<close> has the type
  \<open>Omit<Visitor, "id" | "checkInTime" | "checkOutTime">\<close>: it is the record
  \<open>VisitorData\<close>, which \<open>Visitor\<close> extends with the three remaining fields. The optional
  \<open>id\<close> is the field \<open>visitor_id\<close> (\<open>id\<close> is the identity function of HOL).
  A string is a list of 8-bit characters, each read as the UTF-16 code unit of the same
  number, U+0000 to U+00FF (Basic Latin and Latin-1 Supplement); strings with a code
  unit above U+00FF are outside the model.
\<close>

record VisitorData =
  name :: string
  purpose :: string
  contact :: string

record Visitor = VisitorData +
  visitor_id :: "nat option"
  checkInTime :: int
  checkOutTime :: "int option"

section \<open>Query layer (src/App.tsx, lines 155-172)\<close>

subsection \<open>String.prototype.toLowerCase and String.prototype.includes\<close>

text \<open>
  On code units up to U+00FF \<open>toLowerCase\<close> acts unit by unit: the capital letters
  U+0041 to U+005A and U+00C0 to U+00DE, without the multiplication sign U+00D7, move
  up by 32; every other unit stays (sharp s, y with diaeresis and the micro sign are
  lower-case already).
\<close>

definition lower_char :: "char \<Rightarrow> char" where
  "lower_char c =
     (let n = (of_char c :: nat)
      in if (65 \<le> n \<and> n \<le> 90) \<or> (192 \<le> n \<and> n \<le> 222 \<and> n \<noteq> 215)
         then char_of (n + 32) else c)"

definition toLowerCase :: "string \<Rightarrow> string" where
  "toLowerCase s = map lower_char s"

text \<open>\<open>includes_str s q\<close> is \<open>s.includes(q)\<close>: \<open>q\<close> occurs in \<open>s\<close> at some position.\<close>

fun includes_str :: "string \<Rightarrow> string \<Rightarrow> bool" where
  "includes_str [] q = (q = [])"
| "includes_str (c # s) q = (prefix q (c # s) \<or> includes_str s q)"

subsection \<open>Array.prototype.sort with a comparison function\<close>

text \<open>
  \<open>sort\<close> is stable (ECMAScript 2019 and later): an element moves behind another one
  only when the comparison function returns a positive number for the pair. For a
  consistent comparison function the result is the same for every stable algorithm; the
  model is the insertion of each element into the sorted rest of the array.
\<close>

fun insert_by :: "('a \<Rightarrow> 'a \<Rightarrow> int) \<Rightarrow> 'a \<Rightarrow> 'a list \<Rightarrow> 'a list" where
  "insert_by cmp x [] = [x]"
| "insert_by cmp x (y # ys) =
     (if cmp x y \<le> 0 then x # y # ys else y # insert_by cmp x ys)"

fun sort_by :: "('a \<Rightarrow> 'a \<Rightarrow> int) \<Rightarrow> 'a list \<Rightarrow> 'a list" where
  "sort_by cmp [] = []"
| "sort_by cmp (x # xs) = insert_by cmp x (sort_by cmp xs)"

subsection \<open>filteredVisitors\<close>

text \<open>The comparison function of lines 160-172; \<open>sortOrder\<close> is a string of the state.\<close>

definition compareFn :: "string \<Rightarrow> Visitor \<Rightarrow> Visitor \<Rightarrow> int" where
  "compareFn sortOrder a b =
     (if sortOrder = ''latest'' then checkInTime b - checkInTime a
      else if sortOrder = ''oldest'' then checkInTime a - checkInTime b
      else 0)"

definition matchesQuery :: "string \<Rightarrow> Visitor \<Rightarrow> bool" where
  "matchesQuery searchQuery visitor =
     includes_str (toLowerCase (name visitor)) (toLowerCase searchQuery)"

definition filteredVisitors :: "Visitor list \<Rightarrow> string \<Rightarrow> string \<Rightarrow> Visitor list" where
  "filteredVisitors visitors searchQuery sortOrder =
     sort_by (compareFn sortOrder) (filter (matchesQuery searchQuery) visitors)"

subsection \<open>The same computation on a heap of array objects\<close>

text \<open>
  \<open>filter\<close> allocates a new array and \<open>sort\<close> sorts the array it is called on in place
  and returns it. A heap is the list of the array objects allocated so far; the address
  of an array is its index. Both functions are called on an existing array, and return
  \<open>None\<close> for an address that is not allocated.
\<close>

type_synonym heap = "Visitor list list"

definition array_filter :: "(Visitor \<Rightarrow> bool) \<Rightarrow> nat \<Rightarrow> heap \<Rightarrow> (nat \<times> heap) option" where
  "array_filter p a h =
     (if a < length h then Some (length h, h @ [filter p (h ! a)]) else None)"

definition array_sort ::
  "(Visitor \<Rightarrow> Visitor \<Rightarrow> int) \<Rightarrow> nat \<Rightarrow> heap \<Rightarrow> (nat \<times> heap) option" where
  "array_sort cmp a h =
     (if a < length h then Some (a, h[a := sort_by cmp (h ! a)]) else None)"

definition filteredVisitors_heap ::
  "nat \<Rightarrow> string \<Rightarrow> string \<Rightarrow> heap \<Rightarrow> (nat \<times> heap) option" where
  "filteredVisitors_heap visitors searchQuery sortOrder h =
     (case array_filter (matchesQuery searchQuery) visitors h of
        None \<Rightarrow> None
      | Some (filtered, h1) \<Rightarrow> array_sort (compareFn sortOrder) filtered h1)"

subsection \<open>What the specification calls a case-insensitive substring match\<close>






section \<open>Record store: the object store "visitors" (src/App.tsx, lines 8-17 and 38-47)\<close>

text \<open>
  The object store has the key path \<open>id\<close> and a key generator (\<open>autoIncrement\<close>), whose
  current number starts at 1. The records are kept in ascending order of their keys,
  the order in which \<open>getAll\<close> returns them. Every request to the durable medium can fail
  (the promise rejects); which requests fail during one call of a handler is the
  parameter \<open>medium\<close> of the handler.
\<close>

datatype error = OpenFailed | RequestFailed | ConstraintError

record VisitorDB =
  records :: "(nat \<times> Visitor) list"
  keyGenerator :: nat

record medium =
  openDB_fails :: bool
  add_fails :: bool
  get_fails :: bool
  put_fails :: bool
  clear_fails :: bool
  getAll_fails :: bool

definition medium_ok :: medium where
  "medium_ok = \<lparr>openDB_fails = False, add_fails = False, get_fails = False,
     put_fails = False, clear_fails = False, getAll_fails = False\<rparr>"

definition emptyDB :: VisitorDB where
  "emptyDB = \<lparr>records = [], keyGenerator = 1\<rparr>"

definition openDB :: "medium \<Rightarrow> VisitorDB \<Rightarrow> error + VisitorDB" where
  "openDB m d = (if openDB_fails m then Inl OpenFailed else Inr d)"

fun store_record :: "nat \<Rightarrow> Visitor \<Rightarrow> (nat \<times> Visitor) list \<Rightarrow> (nat \<times> Visitor) list" where
  "store_record k v [] = [(k, v)]"
| "store_record k v ((k', v') # rs) =
     (if k < k' then (k, v) # (k', v') # rs
      else if k = k' then (k, v) # rs
      else (k', v') # store_record k v rs)"

definition db_get :: "medium \<Rightarrow> nat \<Rightarrow> VisitorDB \<Rightarrow> error + Visitor option" where
  "db_get m k d = (if get_fails m then Inl RequestFailed else Inr (map_of (records d) k))"

text \<open>
  \<open>add\<close> of a value without \<open>id\<close> takes the key from the generator and stores the value
  with that \<open>id\<close>; with an \<open>id\<close> it fails when the key exists. \<open>put\<close> replaces the record
  of the value's \<open>id\<close>, or adds one.
\<close>

definition db_add :: "medium \<Rightarrow> Visitor \<Rightarrow> VisitorDB \<Rightarrow> error + (nat \<times> VisitorDB)" where
  "db_add m v d =
     (if add_fails m then Inl RequestFailed
      else case visitor_id v of
        None \<Rightarrow>
          let k = keyGenerator d
          in Inr (k, d\<lparr>records := store_record k (v\<lparr>visitor_id := Some k\<rparr>) (records d),
                        keyGenerator := k + 1\<rparr>)
      | Some k \<Rightarrow>
          if map_of (records d) k \<noteq> None then Inl ConstraintError
          else Inr (k, d\<lparr>records := store_record k v (records d),
                           keyGenerator := max (keyGenerator d) (k + 1)\<rparr>))"

definition db_put :: "medium \<Rightarrow> Visitor \<Rightarrow> VisitorDB \<Rightarrow> error + (nat \<times> VisitorDB)" where
  "db_put m v d =
     (if put_fails m then Inl RequestFailed
      else case visitor_id v of
        None \<Rightarrow>
          let k = keyGenerator d
          in Inr (k, d\<lparr>records := store_record k (v\<lparr>visitor_id := Some k\<rparr>) (records d),
                        keyGenerator := k + 1\<rparr>)
      | Some k \<Rightarrow>
          Inr (k, d\<lparr>records := store_record k v (records d),
                      keyGenerator := max (keyGenerator d) (k + 1)\<rparr>))"

definition db_clear :: "medium \<Rightarrow> VisitorDB \<Rightarrow> error + VisitorDB" where
  "db_clear m d = (if clear_fails m then Inl RequestFailed else Inr (d\<lparr>records := []\<rparr>))"

definition db_getAll :: "medium \<Rightarrow> VisitorDB \<Rightarrow> error + Visitor list" where
  "db_getAll m d = (if getAll_fails m then Inl RequestFailed else Inr (map snd (records d)))"

section \<open>Lifecycle: the handlers of App (src/App.tsx, lines 28-113)\<close>

text \<open>
  The state of the component together with the database and the console. A handler runs
  from its first request to its last state update as one step. It returns nothing; an
  exception it catches is written to the console with \<open>console.error\<close>, which is the
  only place where a failure becomes visible.
\<close>

datatype console_entry = Log string | Error string error

record App =
  db :: VisitorDB
  visitors :: "Visitor list"
  isModalOpen :: bool
  searchQuery :: string
  sortOrder :: string
  console :: "console_entry list"

definition initialApp :: App where
  "initialApp = \<lparr>db = emptyDB, visitors = [], isModalOpen = False, searchQuery = [],
     sortOrder = ''latest'', console = []\<rparr>"

definition console_error :: "string \<Rightarrow> error \<Rightarrow> App \<Rightarrow> App" where
  "console_error msg e w = w\<lparr>console := console w @ [Error msg e]\<rparr>"

definition resetDatabase :: "medium \<Rightarrow> App \<Rightarrow> App" where
  "resetDatabase m w =
     (case openDB m (db w) of
        Inl e \<Rightarrow> console_error ''Failed to reset database:'' e w
      | Inr d \<Rightarrow>
          (case db_clear m d of
             Inl e \<Rightarrow> console_error ''Failed to reset database:'' e w
           | Inr d' \<Rightarrow>
               w\<lparr>db := d', visitors := [],
                  console := console w @ [Log ''Database reset successfully.'']\<rparr>))"

text \<open>\<open>now\<close> is the value of \<open>new Date()\<close> at the call.\<close>

definition addVisitor :: "medium \<Rightarrow> int \<Rightarrow> VisitorData \<Rightarrow> App \<Rightarrow> App" where
  "addVisitor m now visitor w =
     (case openDB m (db w) of
        Inl e \<Rightarrow> console_error ''Failed to add visitor:'' e w
      | Inr d \<Rightarrow>
          let newVisitor = \<lparr>name = name visitor, purpose = purpose visitor,
                contact = contact visitor, visitor_id = None, checkInTime = now,
                checkOutTime = None\<rparr>
          in (case db_add m newVisitor d of
                Inl e \<Rightarrow> console_error ''Failed to add visitor:'' e w
              | Inr (k, d1) \<Rightarrow>
                  (case db_get m k d1 of
                     Inl e \<Rightarrow> console_error ''Failed to add visitor:'' e (w\<lparr>db := d1\<rparr>)
                   | Inr None \<Rightarrow> w\<lparr>db := d1\<rparr>
                   | Inr (Some addedVisitor) \<Rightarrow>
                       w\<lparr>db := d1, visitors := visitors w @ [addedVisitor],
                          isModalOpen := False\<rparr>)))"

definition checkOutVisitor :: "medium \<Rightarrow> int \<Rightarrow> nat \<Rightarrow> App \<Rightarrow> App" where
  "checkOutVisitor m now k w =
     (case openDB m (db w) of
        Inl e \<Rightarrow> console_error ''Failed to check out visitor:'' e w
      | Inr d \<Rightarrow>
          (case db_get m k d of
             Inl e \<Rightarrow> console_error ''Failed to check out visitor:'' e w
           | Inr None \<Rightarrow> w
           | Inr (Some visitor) \<Rightarrow>
               let updatedVisitor = visitor\<lparr>checkOutTime := Some now\<rparr>
               in (case db_put m updatedVisitor d of
                     Inl e \<Rightarrow> console_error ''Failed to check out visitor:'' e w
                   | Inr (_, d1) \<Rightarrow>
                       w\<lparr>db := d1,
                          visitors := map (\<lambda>v. if visitor_id v = Some k then updatedVisitor else v)
                                        (visitors w)\<rparr>)))"

section \<open>Export (src/App.tsx, lines 115-153)\<close>

text \<open>
  A cell of the table body is a string of the record, or the string that
  \<open>toLocaleString()\<close> gives for a time value, which depends on the locale of the host
  and is kept as \<open>LocaleString t\<close>.
\<close>

datatype cell = Text string | LocaleString int

record document =
  title :: string
  head :: "string list list"
  body :: "cell list list"
  saved_as :: string

definition tableRow :: "Visitor \<Rightarrow> cell list" where
  "tableRow visitor =
     [Text (name visitor), Text (purpose visitor), Text (contact visitor),
      LocaleString (checkInTime visitor),
      (case checkOutTime visitor of Some t \<Rightarrow> LocaleString t | None \<Rightarrow> Text ''N/A'')]"

definition exportAsPDF :: "App \<Rightarrow> document" where
  "exportAsPDF w =
     \<lparr>title = ''Visitor List'',
      head = [[''Name'', ''Purpose'', ''Contact'', ''Check-In'', ''Check-Out'']],
      body = map tableRow (visitors w),
      saved_as = ''visitor-list.pdf''\<rparr>"

section \<open>The action column of the table (src/components/Visitor/Table.tsx, lines 72-85)\<close>

text \<open>
  A row of a record that has a check-out time shows the text "Checked Out" and no
  button. A click on the button of another row calls \<open>onCheckOut\<close> when the record has
  an \<open>id\<close> that is not 0.
\<close>

definition clickCheckOut :: "(nat \<Rightarrow> 'w \<Rightarrow> 'w) \<Rightarrow> Visitor \<Rightarrow> 'w \<Rightarrow> 'w" where
  "clickCheckOut onCheckOut visitor w =
     (case checkOutTime visitor of
        Some _ \<Rightarrow> w
      | None \<Rightarrow>
          (case visitor_id visitor of
             None \<Rightarrow> w
           | Some k \<Rightarrow> if k = 0 then w else onCheckOut k w))"

section \<open>The form of the modal (src/components/Visitor/Modals/AddVisitor.tsx)\<close>















section \<open>Auxiliary notions of the verification\<close>

text \<open>
  The key path: every record of the object store carries its key in \<open>id\<close>. The store
  of every state that the handlers reach from an empty database satisfies it.
\<close>

definition key_path_ok :: "VisitorDB \<Rightarrow> bool" where
  "key_path_ok d = list_all (\<lambda>(k, v). visitor_id v = Some k) (records d)"

text \<open>Concrete inputs and states of the examples.\<close>

definition jane :: VisitorData where
  "jane = \<lparr>name = ''Jane Doe'', purpose = ''Interview'', contact = ''5551234''\<rparr>"

definition ann :: VisitorData where
  "ann = \<lparr>name = ''Ann'', purpose = ''Meeting'', contact = ''111''\<rparr>"

definition bob :: VisitorData where
  "bob = \<lparr>name = ''Bob'', purpose = ''Delivery'', contact = ''222''\<rparr>"

definition visitor :: "string \<Rightarrow> nat \<Rightarrow> int \<Rightarrow> Visitor" where
  "visitor n k t = \<lparr>name = n, purpose = ''Meeting'', contact = ''555'', visitor_id = Some k,
     checkInTime = t, checkOutTime = None\<rparr>"

definition app1 :: App where
  "app1 = addVisitor medium_ok 10 jane initialApp"

definition app2 :: App where
  "app2 = checkOutVisitor medium_ok 20 1 app1"

definition app_ab :: App where
  "app_ab = addVisitor medium_ok 20 bob (addVisitor medium_ok 10 ann initialApp)"

section \<open>Lemmas about the query layer\<close>












lemma mset_insert_by: "mset (insert_by cmp x ys) = add_mset x (mset ys)"
  by (induction ys) auto

lemma mset_sort_by: "mset (sort_by cmp xs) = mset xs"
  by (induction xs) (auto simp: mset_insert_by)

lemma insert_by_oldest:
  "insert_by (compareFn ''oldest'') x ys = insort_key checkInTime x ys"
  by (induction ys) (auto simp: compareFn_def)

lemma insert_by_latest:
  "insert_by (compareFn ''latest'') x ys = insort_key (\<lambda>v. - checkInTime v) x ys"
  by (induction ys) (auto simp: compareFn_def)

lemma sort_by_oldest: "sort_by (compareFn ''oldest'') xs = sort_key checkInTime xs"
  by (induction xs) (auto simp: insert_by_oldest)

lemma sort_by_latest:
  "sort_by (compareFn ''latest'') xs = sort_key (\<lambda>v. - checkInTime v) xs"
  by (induction xs) (auto simp: insert_by_latest)

lemma sort_by_other:
  assumes "so \<noteq> ''latest''" "so \<noteq> ''oldest''"
  shows "sort_by (compareFn so) xs = xs"
proof (induction xs)
  case Nil
  show ?case by simp
next
  case (Cons x xs)
  have "insert_by (compareFn so) x xs = x # xs"
    using assms by (cases xs) (simp_all add: compareFn_def)
  with Cons show ?case by simp
qed

lemma sort_by_stable:
  "filter (\<lambda>v. checkInTime v = t) (sort_by (compareFn so) xs)
     = filter (\<lambda>v. checkInTime v = t) xs"
proof -
  consider "so = ''latest''" | "so = ''oldest''"
    | "so \<noteq> ''latest''" "so \<noteq> ''oldest''" by blast
  then show ?thesis
  proof cases
    case 1
    have "filter (\<lambda>v. - checkInTime v = - t) (sort_key (\<lambda>v. - checkInTime v) xs)
        = filter (\<lambda>v. - checkInTime v = - t) xs"
      by (rule sort_key_stable)
    with 1 show ?thesis by (simp add: sort_by_latest)
  next
    case 2
    then show ?thesis by (simp add: sort_by_oldest sort_key_stable)
  next
    case 3
    then show ?thesis by (simp add: sort_by_other)
  qed
qed

lemma sorted_latest:
  "sorted_wrt (\<lambda>a b. checkInTime b \<le> checkInTime a) (sort_by (compareFn ''latest'') xs)"
proof -
  have "sorted (map (\<lambda>v. - checkInTime v) (sort_key (\<lambda>v. - checkInTime v) xs))"
    by (rule sorted_sort_key)
  then show ?thesis by (simp add: sort_by_latest sorted_map)
qed

lemma sorted_oldest:
  "sorted_wrt (\<lambda>a b. checkInTime a \<le> checkInTime b) (sort_by (compareFn ''oldest'') xs)"
proof -
  have "sorted (map checkInTime (sort_key checkInTime xs))"
    by (rule sorted_sort_key)
  then show ?thesis by (simp add: sort_by_oldest sorted_map)
qed

lemma oldest_rev_latest:
  assumes "distinct (map checkInTime xs)"
  shows "sort_by (compareFn ''oldest'') xs = rev (sort_by (compareFn ''latest'') xs)"
proof -
  let ?A = "sort_by (compareFn ''oldest'') xs"
  let ?L = "sort_by (compareFn ''latest'') xs"
  have inj: "inj_on checkInTime (set xs)" and dxs: "distinct xs"
    using assms by (simp_all add: distinct_map)
  have setA: "set ?A = set xs" and setL: "set ?L = set xs"
    by (metis mset_sort_by set_mset_mset)+
  have dA: "distinct (map checkInTime ?A)"
    using assms by (metis mset_sort_by mset_map mset_eq_imp_distinct_iff)
  have dL: "distinct (map checkInTime ?L)"
    using assms by (metis mset_sort_by mset_map mset_eq_imp_distinct_iff)
  have sA: "sorted (map checkInTime ?A)"
    using sorted_oldest[of xs] by (simp add: sorted_map)
  have sL: "sorted (map checkInTime (rev ?L))"
    using sorted_latest[of xs] by (simp add: sorted_map sorted_wrt_rev)
  show ?thesis
  proof (rule map_sorted_distinct_set_unique[of checkInTime])
    show "inj_on checkInTime (set ?A \<union> set (rev ?L))" using inj setA setL by simp
    show "sorted (map checkInTime ?A)" by (rule sA)
    show "distinct (map checkInTime ?A)" by (rule dA)
    show "sorted (map checkInTime (rev ?L))" by (rule sL)
    show "distinct (map checkInTime (rev ?L))" using dL by (simp add: rev_map[symmetric] del: rev_map)
    show "set ?A = set (rev ?L)" using setA setL by simp
  qed
qed




lemma array_sort_in_place:
  "a < length h \<Longrightarrow> array_sort cmp a h = Some (a, h') \<Longrightarrow> h' ! a = sort_by cmp (h ! a)"
  by (auto simp: array_sort_def)

section \<open>Lemmas about the record store and the handlers\<close>

lemma map_of_store_record: "map_of (store_record k v rs) = (map_of rs)(k \<mapsto> v)"
  by (induction rs) (auto simp: fun_eq_iff)

lemma set_store_record: "set (store_record k v rs) \<subseteq> insert (k, v) (set rs)"
  by (induction rs) (auto split: if_splits)

lemma key_path_store_record:
  assumes "list_all (\<lambda>(k, v). visitor_id v = Some k) rs" "visitor_id v = Some k"
  shows "list_all (\<lambda>(k, v). visitor_id v = Some k) (store_record k v rs)"
  using assms set_store_record[of k v rs] by (auto simp: list_all_iff)

lemma key_path_lookup:
  "key_path_ok d \<Longrightarrow> map_of (records d) k = Some v \<Longrightarrow> visitor_id v = Some k"
  by (auto simp: key_path_ok_def list_all_iff dest: map_of_SomeD)

lemma key_path_db_add: "key_path_ok d \<Longrightarrow> db_add m v d = Inr (k, d') \<Longrightarrow> key_path_ok d'"
  by (auto simp: db_add_def key_path_ok_def Let_def split: if_splits option.splits
      intro!: key_path_store_record)

lemma key_path_db_put: "key_path_ok d \<Longrightarrow> db_put m v d = Inr (k, d') \<Longrightarrow> key_path_ok d'"
  by (auto simp: db_put_def key_path_ok_def Let_def split: if_splits option.splits
      intro!: key_path_store_record)

lemma key_path_addVisitor: "key_path_ok (db w) \<Longrightarrow> key_path_ok (db (addVisitor m now d w))"
  by (auto simp: addVisitor_def openDB_def console_error_def Let_def
      split: sum.splits option.splits if_splits dest: key_path_db_add)

lemma key_path_checkOutVisitor:
  "key_path_ok (db w) \<Longrightarrow> key_path_ok (db (checkOutVisitor m now k w))"
  by (auto simp: checkOutVisitor_def openDB_def console_error_def Let_def
      split: sum.splits option.splits if_splits dest: key_path_db_put)

lemma key_path_resetDatabase:
  "key_path_ok (db w) \<Longrightarrow> key_path_ok (db (resetDatabase m w))"
  by (auto simp: resetDatabase_def openDB_def db_clear_def console_error_def key_path_ok_def
      split: sum.splits if_splits)

lemma key_path_initialApp: "key_path_ok (db initialApp)"
  by (simp add: initialApp_def emptyDB_def key_path_ok_def)

text \<open>The result of a check-out that finds the record and whose requests all succeed.\<close>

lemma checkOutVisitor_found:
  assumes "\<not> openDB_fails m" "\<not> get_fails m" "\<not> put_fails m"
    and "key_path_ok (db w)" and "map_of (records (db w)) k = Some v"
  shows "checkOutVisitor m now k w =
     w\<lparr>db := (db w)\<lparr>records := store_record k (v\<lparr>checkOutTime := Some now\<rparr>) (records (db w)),
                     keyGenerator := max (keyGenerator (db w)) (k + 1)\<rparr>,
       visitors := map (\<lambda>x. if visitor_id x = Some k then v\<lparr>checkOutTime := Some now\<rparr> else x)
                     (visitors w)\<rparr>"
proof -
  have "visitor_id v = Some k" using assms(4,5) by (rule key_path_lookup)
  then show ?thesis
    using assms(1-3,5) by (simp add: checkOutVisitor_def openDB_def db_get_def db_put_def Let_def)
qed

lemma checkOutVisitor_absent:
  assumes "\<not> openDB_fails m" "\<not> get_fails m" "map_of (records (db w)) k = None"
  shows "checkOutVisitor m now k w = w"
  using assms by (simp add: checkOutVisitor_def openDB_def db_get_def)

lemma checkOutVisitor_failed:
  assumes "openDB_fails m \<or> get_fails m \<or> put_fails m"
  shows "visitors (checkOutVisitor m now k w) = visitors w"
  using assms
  by (auto simp: checkOutVisitor_def openDB_def db_get_def db_put_def console_error_def Let_def
      split: option.splits)

lemma addVisitor_succeeded:
  assumes "\<not> openDB_fails m" "\<not> add_fails m" "\<not> get_fails m"
  shows "addVisitor m now d w =
    (let k = keyGenerator (db w);
         v = \<lparr>name = name d, purpose = purpose d, contact = contact d, visitor_id = Some k,
               checkInTime = now, checkOutTime = None\<rparr>
     in w\<lparr>db := (db w)\<lparr>records := store_record k v (records (db w)), keyGenerator := k + 1\<rparr>,
          visitors := visitors w @ [v], isModalOpen := False\<rparr>)"
  using assms
  by (simp add: addVisitor_def openDB_def db_add_def db_get_def Let_def map_of_store_record)

lemma addVisitor_failed:
  assumes "openDB_fails m \<or> add_fails m \<or> get_fails m"
  shows "visitors (addVisitor m now d w) = visitors w"
  using assms
  by (auto simp: addVisitor_def openDB_def db_add_def db_get_def console_error_def Let_def
      split: option.splits)

lemma resetDatabase_succeeded:
  assumes "\<not> openDB_fails m" "\<not> clear_fails m"
  shows "resetDatabase m w =
    w\<lparr>db := (db w)\<lparr>records := []\<rparr>, visitors := [],
      console := console w @ [Log ''Database reset successfully.'']\<rparr>"
  using assms by (simp add: resetDatabase_def openDB_def db_clear_def)

lemma resetDatabase_failed:
  assumes "openDB_fails m \<or> clear_fails m"
  shows "visitors (resetDatabase m w) = visitors w \<and> db (resetDatabase m w) = db w"
  using assms by (auto simp: resetDatabase_def openDB_def db_clear_def console_error_def)

lemma filteredVisitors_Nil: "filteredVisitors [] q so = []"
  by (simp add: filteredVisitors_def)

lemma medium_ok_simps:
  "\<not> openDB_fails medium_ok" "\<not> add_fails medium_ok" "\<not> get_fails medium_ok"
  "\<not> put_fails medium_ok" "\<not> clear_fails medium_ok" "\<not> getAll_fails medium_ok"
  by (simp_all add: medium_ok_def)

lemma key_path_app1: "key_path_ok (db app1)"
  unfolding app1_def by (intro key_path_addVisitor key_path_initialApp)

lemma key_path_app2: "key_path_ok (db app2)"
  unfolding app2_def by (intro key_path_checkOutVisitor key_path_app1)

section \<open>Lemmas about the form\<close>








section \<open>The claims\<close>

subsection \<open>C1: a second check-out\<close>

text \<open>
  C1 as stated fails. After Jane Doe is checked in at time 10 and checked out at time
  20, a second call of \<open>checkOutVisitor\<close> for her id at time 30 reports no error and
  the stored check-out time is 30, not 20.
\<close>

theorem checkOut_twice_counterexample:
  "map_option checkOutTime (map_of (records (db app2)) 1) = Some (Some 20)
   \<and> map_option checkOutTime (map_of (records (db (checkOutVisitor medium_ok 30 1 app2))) 1)
       = Some (Some 30)
   \<and> console (checkOutVisitor medium_ok 30 1 app2) = []"
  unfolding app2_def app1_def by code_simp

text \<open>
  C1, amended. The guard is in the table, not in the handler: for a record that has a
  check-out time the action column shows no button, so a click there changes nothing.
  \<open>checkOutVisitor\<close> itself does not reject an id that is already checked out: when
  its requests succeed it stores the record with the current time as the check-out time
  and writes no error to the console.
\<close>

theorem checkOut_again:
  assumes "\<not> openDB_fails m" "\<not> get_fails m" "\<not> put_fails m" "key_path_ok (db w)"
    and "map_of (records (db w)) k = Some v" and "checkOutTime v = Some t"
  shows "clickCheckOut (checkOutVisitor m now) v w = w
    \<and> map_of (records (db (checkOutVisitor m now k w))) k = Some (v\<lparr>checkOutTime := Some now\<rparr>)
    \<and> console (checkOutVisitor m now k w) = console w"
proof -
  note r = checkOutVisitor_found[OF assms(1-5), of now]
  have "clickCheckOut (checkOutVisitor m now) v w = w"
    using assms(6) by (simp add: clickCheckOut_def)
  moreover have "map_of (records (db (checkOutVisitor m now k w))) k
      = Some (v\<lparr>checkOutTime := Some now\<rparr>)"
    by (simp add: r map_of_store_record)
  moreover have "console (checkOutVisitor m now k w) = console w" by (simp add: r)
  ultimately show ?thesis by blast
qed

theorem checkOut_again_witness:
  "map_of (records (db app2)) 1 = Some (hd (visitors app2))
   \<and> checkOutTime (hd (visitors app2)) = Some 20
   \<and> clickCheckOut (checkOutVisitor medium_ok 30) (hd (visitors app2)) app2 = app2
   \<and> map_of (records (db (checkOutVisitor medium_ok 30 1 app2))) 1
       = Some ((hd (visitors app2))\<lparr>checkOutTime := Some 30\<rparr>)"
proof -
  have s: "map_of (records (db app2)) 1 = Some (hd (visitors app2))"
    unfolding app2_def app1_def by code_simp
  have c: "checkOutTime (hd (visitors app2)) = Some 20"
    unfolding app2_def app1_def by code_simp
  from checkOut_again [OF medium_ok_simps(1,3,4) key_path_app2 s c, of 30] s c
  show ?thesis by blast
qed

subsection \<open>C2: what the export renders\<close>

text \<open>
  C2 as stated fails. With Ann checked in at time 10 and Bob at time 20 and the sort
  order "latest", the view shows Bob first, and the export has Ann first; with the
  search text "bo" the view has one record and the export two rows.
\<close>

theorem export_counterexample:
  "sortOrder app_ab = ''latest'' \<and> searchQuery app_ab = []
   \<and> body (exportAsPDF app_ab)
       \<noteq> map tableRow (filteredVisitors (visitors app_ab) (searchQuery app_ab) (sortOrder app_ab))
   \<and> length (filteredVisitors (visitors app_ab) ''bo'' ''latest'') = 1
   \<and> length (body (exportAsPDF (app_ab\<lparr>searchQuery := ''bo''\<rparr>))) = 2"
  unfolding app_ab_def by code_simp

text \<open>
  C2, amended. The export renders the whole in-memory set of records in its stored
  order, whatever the search text and the sort order are: one row for each record, with
  the five columns Name, Purpose, Contact, Check-In, Check-Out, where a record without
  check-out time has the text "N/A" in the last column; the document has the title
  "Visitor List" and is saved as visitor-list.pdf.
\<close>

theorem export_all_records:
  "saved_as (exportAsPDF w) = ''visitor-list.pdf''
   \<and> title (exportAsPDF w) = ''Visitor List''
   \<and> head (exportAsPDF w) = [[''Name'', ''Purpose'', ''Contact'', ''Check-In'', ''Check-Out'']]
   \<and> length (body (exportAsPDF w)) = length (visitors w)
   \<and> (\<forall>i < length (visitors w).
         body (exportAsPDF w) ! i =
           [Text (name (visitors w ! i)), Text (purpose (visitors w ! i)),
            Text (contact (visitors w ! i)), LocaleString (checkInTime (visitors w ! i)),
            (if checkOutTime (visitors w ! i) = None then Text ''N/A''
             else LocaleString (the (checkOutTime (visitors w ! i))))])
   \<and> exportAsPDF (w\<lparr>searchQuery := q, sortOrder := so\<rparr>) = exportAsPDF w"
proof (intro conjI allI impI)
  show "saved_as (exportAsPDF w) = ''visitor-list.pdf''"
    and "title (exportAsPDF w) = ''Visitor List''"
    and "head (exportAsPDF w) = [[''Name'', ''Purpose'', ''Contact'', ''Check-In'', ''Check-Out'']]"
    and "length (body (exportAsPDF w)) = length (visitors w)"
    by (simp_all add: exportAsPDF_def)
  show "exportAsPDF (w\<lparr>searchQuery := q, sortOrder := so\<rparr>) = exportAsPDF w"
    by (simp add: exportAsPDF_def)
next
  fix i assume i: "i < length (visitors w)"
  then have "body (exportAsPDF w) ! i = tableRow (visitors w ! i)"
    by (simp add: exportAsPDF_def)
  also have "\<dots> =
      [Text (name (visitors w ! i)), Text (purpose (visitors w ! i)),
       Text (contact (visitors w ! i)), LocaleString (checkInTime (visitors w ! i)),
       (if checkOutTime (visitors w ! i) = None then Text ''N/A''
        else LocaleString (the (checkOutTime (visitors w ! i))))]"
    by (cases "checkOutTime (visitors w ! i)") (simp_all add: tableRow_def)
  finally show "body (exportAsPDF w) ! i =
      [Text (name (visitors w ! i)), Text (purpose (visitors w ! i)),
       Text (contact (visitors w ! i)), LocaleString (checkInTime (visitors w ! i)),
       (if checkOutTime (visitors w ! i) = None then Text ''N/A''
        else LocaleString (the (checkOutTime (visitors w ! i))))]" .
qed

theorem export_all_records_witness:
  "(1::nat) < length (visitors app_ab)
   \<and> body (exportAsPDF app_ab) ! 1
       = [Text ''Bob'', Text ''Delivery'', Text ''222'', LocaleString 20, Text ''N/A'']
   \<and> length (body (exportAsPDF app_ab)) = 2"
proof -
  have l: "(1::nat) < length (visitors app_ab)" and n: "length (visitors app_ab) = 2"
    unfolding app_ab_def by code_simp+
  have r: "[Text (name (visitors app_ab ! 1)), Text (purpose (visitors app_ab ! 1)),
            Text (contact (visitors app_ab ! 1)), LocaleString (checkInTime (visitors app_ab ! 1)),
            (if checkOutTime (visitors app_ab ! 1) = None then Text ''N/A''
             else LocaleString (the (checkOutTime (visitors app_ab ! 1))))]
      = [Text ''Bob'', Text ''Delivery'', Text ''222'', LocaleString 20, Text ''N/A'']"
    unfolding app_ab_def by code_simp
  from export_all_records [of app_ab "[]" "''latest''"] l
  have "body (exportAsPDF app_ab) ! 1 =
           [Text (name (visitors app_ab ! 1)), Text (purpose (visitors app_ab ! 1)),
            Text (contact (visitors app_ab ! 1)), LocaleString (checkInTime (visitors app_ab ! 1)),
            (if checkOutTime (visitors app_ab ! 1) = None then Text ''N/A''
             else LocaleString (the (checkOutTime (visitors app_ab ! 1))))]"
    and "length (body (exportAsPDF app_ab)) = length (visitors app_ab)"
    by blast+
  with l n r show ?thesis by simp
qed

subsection \<open>C3: the name filter\<close>



subsection \<open>C4: the sort order\<close>

text \<open>
  C4. The view for "latest" is in descending and the view for "oldest" in ascending
  order of the check-in time; for every sort order the records of one check-in time
  keep the order they have in the list, and the view is a permutation of the filtered
  list; when the check-in times of the list are pairwise distinct, the view for
  "oldest" is the reverse of the view for "latest".
\<close>

theorem view_sorted_stable:
  "sorted_wrt (\<lambda>a b. checkInTime a \<ge> checkInTime b) (filteredVisitors vs q ''latest'')
   \<and> sorted_wrt (\<lambda>a b. checkInTime a \<le> checkInTime b) (filteredVisitors vs q ''oldest'')
   \<and> filter (\<lambda>v. checkInTime v = t) (filteredVisitors vs q so)
       = filter (\<lambda>v. checkInTime v = t) (filter (matchesQuery q) vs)
   \<and> mset (filteredVisitors vs q so) = mset (filter (matchesQuery q) vs)
   \<and> (distinct (map checkInTime vs) \<longrightarrow>
        filteredVisitors vs q ''oldest'' = rev (filteredVisitors vs q ''latest''))"
proof (intro conjI impI)
  show "sorted_wrt (\<lambda>a b. checkInTime a \<ge> checkInTime b) (filteredVisitors vs q ''latest'')"
    unfolding filteredVisitors_def by (rule sorted_latest)
  show "sorted_wrt (\<lambda>a b. checkInTime a \<le> checkInTime b) (filteredVisitors vs q ''oldest'')"
    unfolding filteredVisitors_def by (rule sorted_oldest)
  show "filter (\<lambda>v. checkInTime v = t) (filteredVisitors vs q so)
       = filter (\<lambda>v. checkInTime v = t) (filter (matchesQuery q) vs)"
    unfolding filteredVisitors_def by (rule sort_by_stable)
  show "mset (filteredVisitors vs q so) = mset (filter (matchesQuery q) vs)"
    unfolding filteredVisitors_def by (rule mset_sort_by)
next
  assume "distinct (map checkInTime vs)"
  then have "distinct (map checkInTime (filter (matchesQuery q) vs))"
    by (rule distinct_map_filter)
  then show "filteredVisitors vs q ''oldest'' = rev (filteredVisitors vs q ''latest'')"
    unfolding filteredVisitors_def by (rule oldest_rev_latest)
qed

theorem view_sorted_stable_witness:
  "distinct (map checkInTime [visitor ''Ann'' 1 20, visitor ''Bob'' 2 10, visitor ''Cy'' 3 30])
   \<and> filteredVisitors [visitor ''Ann'' 1 20, visitor ''Bob'' 2 10, visitor ''Cy'' 3 30] [] ''latest''
       = [visitor ''Cy'' 3 30, visitor ''Ann'' 1 20, visitor ''Bob'' 2 10]
   \<and> filteredVisitors [visitor ''Ann'' 1 20, visitor ''Bob'' 2 10, visitor ''Cy'' 3 30] [] ''oldest''
       = rev [visitor ''Cy'' 3 30, visitor ''Ann'' 1 20, visitor ''Bob'' 2 10]"
proof -
  have d: "distinct (map checkInTime [visitor ''Ann'' 1 20, visitor ''Bob'' 2 10, visitor ''Cy'' 3 30])"
    by code_simp
  have l: "filteredVisitors [visitor ''Ann'' 1 20, visitor ''Bob'' 2 10, visitor ''Cy'' 3 30] [] ''latest''
       = [visitor ''Cy'' 3 30, visitor ''Ann'' 1 20, visitor ''Bob'' 2 10]"
    by code_simp
  from d view_sorted_stable
    [of "[visitor ''Ann'' 1 20, visitor ''Bob'' 2 10, visitor ''Cy'' 3 30]" "[]" 0 "''latest''"]
  have "filteredVisitors [visitor ''Ann'' 1 20, visitor ''Bob'' 2 10, visitor ''Cy'' 3 30] [] ''oldest''
      = rev (filteredVisitors [visitor ''Ann'' 1 20, visitor ''Bob'' 2 10, visitor ''Cy'' 3 30] [] ''latest'')"
    by blast
  with d l show ?thesis by simp
qed

subsection \<open>C5: validation of the form\<close>



subsection \<open>C6: reset\<close>

text \<open>
  C6. \<open>resetDatabase\<close> first clears the object store and then empties the in-memory
  set: when the requests succeed, \<open>getAll\<close> returns the empty sequence afterwards, the
  in-memory set is empty and so is every view of it. When opening the database or the
  clear request fails, neither the store nor the in-memory set has changed, so the set is
  never emptied before the store is.
\<close>

theorem reset_clears_store_and_view:
  "(\<not> openDB_fails m \<and> \<not> clear_fails m \<longrightarrow>
      db_getAll medium_ok (db (resetDatabase m w)) = Inr []
      \<and> visitors (resetDatabase m w) = []
      \<and> filteredVisitors (visitors (resetDatabase m w)) q so = [])
   \<and> (openDB_fails m \<or> clear_fails m \<longrightarrow>
      visitors (resetDatabase m w) = visitors w \<and> db (resetDatabase m w) = db w)"
proof (intro conjI impI)
  assume ok: "\<not> openDB_fails m \<and> \<not> clear_fails m"
  then have r: "resetDatabase m w =
      w\<lparr>db := (db w)\<lparr>records := []\<rparr>, visitors := [],
        console := console w @ [Log ''Database reset successfully.'']\<rparr>"
    by (simp add: resetDatabase_succeeded)
  show "db_getAll medium_ok (db (resetDatabase m w)) = Inr []"
    by (simp add: r db_getAll_def medium_ok_def)
  show "visitors (resetDatabase m w) = []" by (simp add: r)
  then show "filteredVisitors (visitors (resetDatabase m w)) q so = []"
    by (simp add: filteredVisitors_Nil)
next
  assume "openDB_fails m \<or> clear_fails m"
  then show "visitors (resetDatabase m w) = visitors w" "db (resetDatabase m w) = db w"
    by (simp_all add: resetDatabase_failed)
qed

theorem reset_clears_store_and_view_witness:
  "visitors (addVisitor medium_ok 10 jane initialApp) \<noteq> []
   \<and> db_getAll medium_ok (db (resetDatabase medium_ok (addVisitor medium_ok 10 jane initialApp))) = Inr []
   \<and> visitors (resetDatabase medium_ok (addVisitor medium_ok 10 jane initialApp)) = []"
proof -
  have ok: "\<not> openDB_fails medium_ok \<and> \<not> clear_fails medium_ok"
    by (simp add: medium_ok_def)
  have before: "visitors (addVisitor medium_ok 10 jane initialApp) \<noteq> []"
    by code_simp
  from ok before
    reset_clears_store_and_view [of medium_ok "addVisitor medium_ok 10 jane initialApp" "[]" "''latest''"]
  show ?thesis by blast
qed

subsection \<open>C7: store, then reflect\<close>

text \<open>
  C7. When a request of \<open>addVisitor\<close> or of \<open>checkOutVisitor\<close> fails, the in-memory
  set is the same after the call as before. When the in-memory set has changed, the
  write to the store has succeeded and the store after the call is the store that the
  write returned: for \<open>addVisitor\<close> the appended record is the one stored under the
  new key, for \<open>checkOutVisitor\<close> the record found under the id was written back with
  the check-out time.
\<close>

theorem store_then_reflect:
  "(openDB_fails m \<or> add_fails m \<or> get_fails m \<longrightarrow>
      visitors (addVisitor m now d w) = visitors w)
   \<and> (openDB_fails m \<or> get_fails m \<or> put_fails m \<longrightarrow>
      visitors (checkOutVisitor m now k w) = visitors w)
   \<and> (visitors (addVisitor m now d w) \<noteq> visitors w \<longrightarrow>
      (\<exists>j v. db_add m \<lparr>name = name d, purpose = purpose d, contact = contact d,
                 visitor_id = None, checkInTime = now, checkOutTime = None\<rparr> (db w)
               = Inr (j, db (addVisitor m now d w))
             \<and> map_of (records (db (addVisitor m now d w))) j = Some v
             \<and> visitors (addVisitor m now d w) = visitors w @ [v]))
   \<and> (visitors (checkOutVisitor m now k w) \<noteq> visitors w \<longrightarrow>
      (\<exists>j v. map_of (records (db w)) k = Some v
             \<and> db_put m (v\<lparr>checkOutTime := Some now\<rparr>) (db w)
               = Inr (j, db (checkOutVisitor m now k w))))"
proof (intro conjI impI)
  assume "openDB_fails m \<or> add_fails m \<or> get_fails m"
  then show "visitors (addVisitor m now d w) = visitors w" by (rule addVisitor_failed)
next
  assume "openDB_fails m \<or> get_fails m \<or> put_fails m"
  then show "visitors (checkOutVisitor m now k w) = visitors w" by (rule checkOutVisitor_failed)
next
  assume changed: "visitors (addVisitor m now d w) \<noteq> visitors w"
  then have ok: "\<not> openDB_fails m" "\<not> add_fails m" "\<not> get_fails m"
    using addVisitor_failed[of m now d w] by auto
  show "\<exists>j v. db_add m \<lparr>name = name d, purpose = purpose d, contact = contact d,
                 visitor_id = None, checkInTime = now, checkOutTime = None\<rparr> (db w)
               = Inr (j, db (addVisitor m now d w))
             \<and> map_of (records (db (addVisitor m now d w))) j = Some v
             \<and> visitors (addVisitor m now d w) = visitors w @ [v]"
    using ok by (simp add: addVisitor_succeeded db_add_def Let_def map_of_store_record)
next
  assume changed: "visitors (checkOutVisitor m now k w) \<noteq> visitors w"
  then have ok: "\<not> openDB_fails m" "\<not> get_fails m" "\<not> put_fails m"
    using checkOutVisitor_failed[of m now k w] by auto
  from changed ok obtain v where v: "map_of (records (db w)) k = Some v"
    using checkOutVisitor_absent[of m w k now] by (cases "map_of (records (db w)) k") auto
  have "\<exists>j. db_put m (v\<lparr>checkOutTime := Some now\<rparr>) (db w) = Inr (j, db (checkOutVisitor m now k w))"
    using ok v
    by (auto simp: checkOutVisitor_def openDB_def db_get_def db_put_def Let_def split: option.splits)
  with v show "\<exists>j v. map_of (records (db w)) k = Some v
      \<and> db_put m (v\<lparr>checkOutTime := Some now\<rparr>) (db w) = Inr (j, db (checkOutVisitor m now k w))"
    by blast
qed

theorem store_then_reflect_witness:
  "add_fails (medium_ok\<lparr>add_fails := True\<rparr>)
   \<and> visitors (addVisitor (medium_ok\<lparr>add_fails := True\<rparr>) 10 jane initialApp) = visitors initialApp
   \<and> put_fails (medium_ok\<lparr>put_fails := True\<rparr>)
   \<and> visitors (checkOutVisitor (medium_ok\<lparr>put_fails := True\<rparr>) 20 1 app1) = visitors app1
   \<and> visitors app1 \<noteq> visitors initialApp
   \<and> map_of (records (db app1)) 1 = Some (hd (visitors app1))"
proof -
  have a: "add_fails (medium_ok\<lparr>add_fails := True\<rparr>)" and p: "put_fails (medium_ok\<lparr>put_fails := True\<rparr>)"
    by simp_all
  have c: "visitors app1 \<noteq> visitors initialApp"
    unfolding app1_def by code_simp
  have s: "map_of (records (db app1)) 1 = Some (hd (visitors app1))"
    unfolding app1_def by code_simp
  from a store_then_reflect [of "medium_ok\<lparr>add_fails := True\<rparr>" 10 jane initialApp]
  have "visitors (addVisitor (medium_ok\<lparr>add_fails := True\<rparr>) 10 jane initialApp) = visitors initialApp"
    by blast
  moreover from p store_then_reflect [of "medium_ok\<lparr>put_fails := True\<rparr>" 20 jane app1 1]
  have "visitors (checkOutVisitor (medium_ok\<lparr>put_fails := True\<rparr>) 20 1 app1) = visitors app1"
    by blast
  ultimately show ?thesis using a p c s by blast
qed

subsection \<open>C8: check-out of an absent and of an existing record\<close>

text \<open>
  C8 as stated fails. The empty store has no record with the id 7; the call of
  \<open>checkOutVisitor\<close> for 7 returns the state unchanged, and the console, the only
  place where a handler reports a failure, stays empty.
\<close>

theorem checkOut_absent_counterexample:
  "db_get medium_ok 7 (db initialApp) = Inr None
   \<and> checkOutVisitor medium_ok 20 7 initialApp = initialApp
   \<and> console (checkOutVisitor medium_ok 20 7 initialApp) = []"
  by (simp add: checkOutVisitor_def openDB_def db_get_def medium_ok_def initialApp_def emptyDB_def)

text \<open>
  C8, amended. When the requests succeed: for an id without record in the store,
  \<open>checkOutVisitor\<close> changes nothing and reports nothing; for an id with a record it
  stores the record with the current time as check-out time under that id, replaces the
  entries of the in-memory set that have this id by the updated record, and writes
  nothing to the console.
\<close>

theorem checkOut_absent_and_present:
  assumes "\<not> openDB_fails m" "\<not> get_fails m" "\<not> put_fails m" "key_path_ok (db w)"
  shows "(map_of (records (db w)) k = None \<longrightarrow> checkOutVisitor m now k w = w)
    \<and> (\<forall>v. map_of (records (db w)) k = Some v \<longrightarrow>
          map_of (records (db (checkOutVisitor m now k w))) k = Some (v\<lparr>checkOutTime := Some now\<rparr>)
          \<and> visitors (checkOutVisitor m now k w)
              = map (\<lambda>x. if visitor_id x = Some k then v\<lparr>checkOutTime := Some now\<rparr> else x)
                  (visitors w)
          \<and> console (checkOutVisitor m now k w) = console w)"
proof (intro conjI impI allI)
  assume "map_of (records (db w)) k = None"
  with assms show "checkOutVisitor m now k w = w" by (simp add: checkOutVisitor_absent)
next
  fix v assume v: "map_of (records (db w)) k = Some v"
  note r = checkOutVisitor_found[OF assms v, of now]
  show "map_of (records (db (checkOutVisitor m now k w))) k = Some (v\<lparr>checkOutTime := Some now\<rparr>)"
    by (simp add: r map_of_store_record)
  show "visitors (checkOutVisitor m now k w)
      = map (\<lambda>x. if visitor_id x = Some k then v\<lparr>checkOutTime := Some now\<rparr> else x) (visitors w)"
    by (simp add: r)
  show "console (checkOutVisitor m now k w) = console w" by (simp add: r)
qed

theorem checkOut_absent_and_present_witness:
  "map_of (records (db app1)) 7 = None \<and> checkOutVisitor medium_ok 20 7 app1 = app1
   \<and> map_of (records (db app1)) 1 = Some (hd (visitors app1))
   \<and> map_of (records (db (checkOutVisitor medium_ok 20 1 app1))) 1
       = Some ((hd (visitors app1))\<lparr>checkOutTime := Some 20\<rparr>)
   \<and> visitors (checkOutVisitor medium_ok 20 1 app1) = [(hd (visitors app1))\<lparr>checkOutTime := Some 20\<rparr>]"
proof -
  have n: "map_of (records (db app1)) 7 = None"
    unfolding app1_def by code_simp
  have s: "map_of (records (db app1)) 1 = Some (hd (visitors app1))"
    unfolding app1_def by code_simp
  have l: "map (\<lambda>x. if visitor_id x = Some 1 then (hd (visitors app1))\<lparr>checkOutTime := Some 20\<rparr> else x)
      (visitors app1) = [(hd (visitors app1))\<lparr>checkOutTime := Some 20\<rparr>]"
    unfolding app1_def by code_simp
  note t7 = checkOut_absent_and_present [OF medium_ok_simps(1,3,4) key_path_app1, of 7 20]
  note t1 = checkOut_absent_and_present [OF medium_ok_simps(1,3,4) key_path_app1, of 1 20]
  from n t7 have "checkOutVisitor medium_ok 20 7 app1 = app1" by blast
  moreover from s t1 have "map_of (records (db (checkOutVisitor medium_ok 20 1 app1))) 1
       = Some ((hd (visitors app1))\<lparr>checkOutTime := Some 20\<rparr>)" by blast
  moreover from s t1 l have "visitors (checkOutVisitor medium_ok 20 1 app1)
       = [(hd (visitors app1))\<lparr>checkOutTime := Some 20\<rparr>]" by simp
  ultimately show ?thesis using n s by blast
qed

subsection \<open>C9: the times of a record\<close>

text \<open>
  C9 as stated fails. Jane Doe is checked in when the clock reads 10 and checked out
  when it reads 5 (the clock of the host was set back in between): the stored record
  has the check-in time 10 and the check-out time 5.
\<close>

theorem checkOut_clock_counterexample:
  "map_option checkInTime (map_of (records (db app1)) 1) = Some 10
   \<and> map_option checkOutTime (map_of (records (db app1)) 1) = Some None
   \<and> map_option checkInTime (map_of (records (db (checkOutVisitor medium_ok 5 1 app1))) 1) = Some 10
   \<and> map_option checkOutTime (map_of (records (db (checkOutVisitor medium_ok 5 1 app1))) 1)
       = Some (Some 5)
   \<and> \<not> (10::int) \<le> 5"
  unfolding app1_def by code_simp

text \<open>
  C9, amended. When the requests succeed, the record that \<open>addVisitor\<close> creates has
  the clock reading as check-in time and no check-out time; after \<open>checkOutVisitor\<close>
  for the id of a stored record, \<open>get\<close> yields the record with the clock reading of
  the check-out as check-out time and the check-in time it had before; the check-out
  time is not before the check-in time exactly when the clock reading of the check-out
  is not before the check-in time.
\<close>

theorem checkIn_checkOut_times:
  assumes "\<not> openDB_fails m" "\<not> add_fails m" "\<not> get_fails m" "\<not> put_fails m"
    and "key_path_ok (db w)"
  shows "(\<exists>v. visitors (addVisitor m now d w) = visitors w @ [v]
            \<and> db_get m (keyGenerator (db w)) (db (addVisitor m now d w)) = Inr (Some v)
            \<and> checkInTime v = now \<and> checkOutTime v = None)
    \<and> (\<forall>r. map_of (records (db w)) k = Some r \<longrightarrow>
          (\<exists>r'. db_get m k (db (checkOutVisitor m now k w)) = Inr (Some r')
             \<and> checkOutTime r' = Some now \<and> checkInTime r' = checkInTime r
             \<and> ((\<forall>t. checkOutTime r' = Some t \<longrightarrow> checkInTime r' \<le> t) \<longleftrightarrow> checkInTime r \<le> now)))"
proof (intro conjI allI impI)
  show "\<exists>v. visitors (addVisitor m now d w) = visitors w @ [v]
            \<and> db_get m (keyGenerator (db w)) (db (addVisitor m now d w)) = Inr (Some v)
            \<and> checkInTime v = now \<and> checkOutTime v = None"
    using assms(1-3) by (simp add: addVisitor_succeeded Let_def db_get_def map_of_store_record)
next
  fix r assume r: "map_of (records (db w)) k = Some r"
  note f = checkOutVisitor_found[OF assms(1,3,4,5) r, of now]
  have "db_get m k (db (checkOutVisitor m now k w)) = Inr (Some (r\<lparr>checkOutTime := Some now\<rparr>))"
    using assms(3) by (simp add: f db_get_def map_of_store_record)
  then show "\<exists>r'. db_get m k (db (checkOutVisitor m now k w)) = Inr (Some r')
             \<and> checkOutTime r' = Some now \<and> checkInTime r' = checkInTime r
             \<and> ((\<forall>t. checkOutTime r' = Some t \<longrightarrow> checkInTime r' \<le> t) \<longleftrightarrow> checkInTime r \<le> now)"
    by simp
qed

theorem checkIn_checkOut_times_witness:
  "map_of (records (db app1)) 1 = Some (hd (visitors app1))
   \<and> checkInTime (hd (visitors app1)) = 10
   \<and> (\<exists>r'. db_get medium_ok 1 (db (checkOutVisitor medium_ok 20 1 app1)) = Inr (Some r')
          \<and> checkOutTime r' = Some 20 \<and> checkInTime r' = 10)"
proof -
  have s: "map_of (records (db app1)) 1 = Some (hd (visitors app1))"
    unfolding app1_def by code_simp
  have c: "checkInTime (hd (visitors app1)) = 10"
    unfolding app1_def by code_simp
  from checkIn_checkOut_times [OF medium_ok_simps(1,2,3,4) key_path_app1, of 20 jane 1] s
  obtain r' where "db_get medium_ok 1 (db (checkOutVisitor medium_ok 20 1 app1)) = Inr (Some r')"
    "checkOutTime r' = Some 20" "checkInTime r' = checkInTime (hd (visitors app1))"
    by blast
  with s c show ?thesis by auto
qed

subsection \<open>C10: the view does not change the array of the state\<close>

text \<open>
  C10. Computing the view of an allocated array allocates one new array, which holds
  the view; every array that existed before, the array of the state among them, has the
  same elements in the same order afterwards.
\<close>

theorem view_keeps_visitors_array:
  assumes "a < length h"
  shows "filteredVisitors_heap a q so h
      = Some (length h, h @ [filteredVisitors (h ! a) q so])
    \<and> (h @ [filteredVisitors (h ! a) q so]) ! a = h ! a
    \<and> take (length h) (h @ [filteredVisitors (h ! a) q so]) = h"
  using assms
  by (simp add: filteredVisitors_heap_def array_filter_def array_sort_def filteredVisitors_def
      nth_append)

theorem view_keeps_visitors_array_witness:
  "(0::nat) < length [[visitor ''Ann'' 1 10, visitor ''Bob'' 2 20]]
   \<and> filteredVisitors_heap 0 [] ''latest'' [[visitor ''Ann'' 1 10, visitor ''Bob'' 2 20]]
      = Some (1, [[visitor ''Ann'' 1 10, visitor ''Bob'' 2 20],
                  [visitor ''Bob'' 2 20, visitor ''Ann'' 1 10]])"
proof -
  have l: "(0::nat) < length [[visitor ''Ann'' 1 10, visitor ''Bob'' 2 20]]" by simp
  have v: "filteredVisitors ([[visitor ''Ann'' 1 10, visitor ''Bob'' 2 20]] ! 0) [] ''latest''
      = [visitor ''Bob'' 2 20, visitor ''Ann'' 1 10]"
    by code_simp
  from view_keeps_visitors_array [OF l, of "[]" "''latest''"] l show ?thesis
    unfolding v by simp
qed

end
